theory Spec2Isabelle
  imports Complex_Main "HOL-Library.Multiset" "HOL-Library.Char_ord" "HOL-Library.List_Lexorder"
begin

section \<open>Energy dashboard: the data pipeline of pp.py and app.py\<close>

text \<open>
  The two scripts read up to three CSV files (Utility, Gen1, Gen2) with pandas, derive the
  per-interval consumption \<open>KWh\<close> from the cumulative counter \<open>kwh_import\<close>, concatenate the
  sources, and (pp.py) add fuel and cost columns, per-source summaries with percentages,
  5-minute buckets and the highest and lowest bucket of every source.

  A DataFrame is a list of rows, in row order. A float64 cell is a value of \<open>f64\<close>: a
  rational number, NaN, or an infinity. Arithmetic on finite values is exact: the rounding
  error of binary floating point, overflow and the sign of zero are not part of the model
  (a division by zero takes the zero as positive).
\<close>

subsection \<open>float64 cells\<close>

datatype f64 = Fin rat | NaN | PInf | NInf

fun isna :: "f64 \<Rightarrow> bool" where
  "isna NaN = True"
| "isna _ = False"

fun is_finite :: "f64 \<Rightarrow> bool" where
  "is_finite (Fin _) = True"
| "is_finite _ = False"

fun f_neg :: "f64 \<Rightarrow> f64" where
  "f_neg (Fin a) = Fin (- a)"
| "f_neg NaN = NaN"
| "f_neg PInf = NInf"
| "f_neg NInf = PInf"

fun f_add :: "f64 \<Rightarrow> f64 \<Rightarrow> f64" where
  "f_add (Fin a) (Fin b) = Fin (a + b)"
| "f_add NaN _ = NaN"
| "f_add _ NaN = NaN"
| "f_add PInf NInf = NaN"
| "f_add NInf PInf = NaN"
| "f_add PInf _ = PInf"
| "f_add _ PInf = PInf"
| "f_add NInf _ = NInf"
| "f_add _ NInf = NInf"

definition f_sub :: "f64 \<Rightarrow> f64 \<Rightarrow> f64" where
  "f_sub x y = f_add x (f_neg y)"

text \<open>An infinity with the sign of \<open>a\<close> (positive for \<open>a = 0\<close>), or of \<open>- a\<close>.\<close>

definition signed_inf :: "rat \<Rightarrow> bool \<Rightarrow> f64" where
  "signed_inf a flip = (if (0 \<le> a) = flip then NInf else PInf)"

fun f_mul :: "f64 \<Rightarrow> f64 \<Rightarrow> f64" where
  "f_mul (Fin a) (Fin b) = Fin (a * b)"
| "f_mul NaN _ = NaN"
| "f_mul _ NaN = NaN"
| "f_mul (Fin a) PInf = (if a = 0 then NaN else signed_inf a False)"
| "f_mul (Fin a) NInf = (if a = 0 then NaN else signed_inf a True)"
| "f_mul PInf (Fin b) = (if b = 0 then NaN else signed_inf b False)"
| "f_mul NInf (Fin b) = (if b = 0 then NaN else signed_inf b True)"
| "f_mul PInf PInf = PInf"
| "f_mul NInf NInf = PInf"
| "f_mul PInf NInf = NInf"
| "f_mul NInf PInf = NInf"

fun f_div :: "f64 \<Rightarrow> f64 \<Rightarrow> f64" where
  "f_div (Fin a) (Fin b) =
     (if b = 0 then (if a = 0 then NaN else signed_inf a False) else Fin (a / b))"
| "f_div NaN _ = NaN"
| "f_div _ NaN = NaN"
| "f_div (Fin a) _ = Fin 0"
| "f_div PInf (Fin b) = signed_inf b False"
| "f_div NInf (Fin b) = signed_inf b True"
| "f_div _ _ = NaN"

text \<open>
  \<open>Series.round(d)\<close> is numpy's \<open>around\<close>: multiply by \<open>10 ^ d\<close>, round to the nearest
  integer with ties to the even one (\<open>rint\<close>), divide by \<open>10 ^ d\<close>.
\<close>

definition rint :: "rat \<Rightarrow> int" where
  "rint x =
     (let f = \<lfloor>x\<rfloor>; r = x - of_int f
      in if r < 1 / 2 then f else if 1 / 2 < r then f + 1 else if even f then f else f + 1)"

definition round_dec :: "nat \<Rightarrow> rat \<Rightarrow> rat" where
  "round_dec d x = of_int (rint (x * 10 ^ d)) / 10 ^ d"

fun np_round :: "nat \<Rightarrow> f64 \<Rightarrow> f64" where
  "np_round d (Fin a) = Fin (round_dec d a)"
| "np_round d x = x"

subsection \<open>Series operations\<close>

text \<open>\<open>Series.diff()\<close>: NaN in the first row, then each value minus the one before it.\<close>

fun diff :: "f64 list \<Rightarrow> f64 list" where
  "diff [] = []"
| "diff (x # xs) = NaN # map2 f_sub xs (x # xs)"

definition fillna :: "f64 \<Rightarrow> f64 list \<Rightarrow> f64 list" where
  "fillna v xs = map (\<lambda>x. if isna x then v else x) xs"

text \<open>A sum of a column skips NaN cells (\<open>skipna\<close>) and starts from 0.\<close>

definition f_sum :: "f64 list \<Rightarrow> f64" where
  "f_sum xs = foldl f_add (Fin 0) (filter (\<lambda>x. \<not> isna x) xs)"

subsection \<open>process_source\<close>

text \<open>
  An uploaded file as \<open>read_csv\<close> returns it: the names of its columns, and the cells of the
  four required columns of every row (\<open>post_date\<close> and \<open>post_time\<close> are text, \<open>None\<close> for
  an empty cell; \<open>total_kw\<close> and \<open>kwh_import\<close> are float64, NaN for an empty cell). The cells
  of a column that \<open>columns\<close> does not name are never read.
\<close>

record raw_row =
  post_date :: "string option"
  post_time :: "string option"
  total_kw :: f64
  kwh_import :: f64

record csv =
  columns :: "string list"
  rows :: "raw_row list"

text \<open>A row of the frame \<open>process_source\<close> returns; \<open>post_datetime = None\<close> is NaT.\<close>

record reading = raw_row +
  post_datetime :: "int option"
  KWh :: f64
  source :: string

datatype message = warning string | success string | info string

definition required :: "string list" where
  "required = [''post_date'', ''post_time'', ''total_kw'', ''kwh_import'']"

text \<open>\<open>df['post_date'] + ' ' + df['post_time']\<close>: missing where either cell is missing.\<close>

definition date_time_text :: "raw_row \<Rightarrow> string option" where
  "date_time_text r =
     (case post_date r of None \<Rightarrow> None
      | Some d \<Rightarrow> (case post_time r of None \<Rightarrow> None | Some t \<Rightarrow> Some (d @ '' '' @ t)))"

text \<open>
  \<open>pd.to_datetime(..., errors='coerce')\<close>: the parser of one text is the parameter
  \<open>to_datetime\<close> (nanoseconds since the epoch, \<open>None\<close> where the text does not parse); a
  missing text is NaT.
\<close>

definition coerce_datetime :: "(string \<Rightarrow> int option) \<Rightarrow> raw_row \<Rightarrow> int option" where
  "coerce_datetime to_datetime r =
     (case date_time_text r of None \<Rightarrow> None | Some s \<Rightarrow> to_datetime s)"

text \<open>
  \<open>df.sort_values('post_datetime')\<close> sorts with pandas' \<open>nargsort\<close>: the rows with a
  timestamp are ordered by numpy's \<open>argsort\<close> (kind \<open>quicksort\<close>, the default), the NaT rows
  follow in their row order. numpy's \<open>argsort\<close> is the parameter \<open>argsort\<close>: it returns the
  positions of the keys in an ascending order of the keys.
\<close>

definition nargsort :: "(int list \<Rightarrow> nat list) \<Rightarrow> int option list \<Rightarrow> nat list" where
  "nargsort argsort items =
     (let idx = [0..<length items];
          non_nan_idx = filter (\<lambda>i. items ! i \<noteq> None) idx;
          nan_idx = filter (\<lambda>i. items ! i = None) idx;
          non_nans = map (\<lambda>i. the (items ! i)) non_nan_idx
      in map (\<lambda>j. non_nan_idx ! j) (argsort non_nans) @ nan_idx)"

definition sort_values :: "(int list \<Rightarrow> nat list) \<Rightarrow> ('a \<Rightarrow> int option) \<Rightarrow> 'a list \<Rightarrow> 'a list" where
  "sort_values argsort by df = map (\<lambda>i. df ! i) (nargsort argsort (map by df))"

text \<open>\<open>df['kwh_import'].diff().fillna(0).round(2)\<close>\<close>

definition derive_kwh :: "f64 list \<Rightarrow> f64 list" where
  "derive_kwh xs = map (np_round 2) (fillna (Fin 0) (diff xs))"

definition make_reading :: "string \<Rightarrow> raw_row \<times> int option \<Rightarrow> f64 \<Rightarrow> reading" where
  "make_reading source_name rt k =
     \<lparr> post_date = post_date (fst rt), post_time = post_time (fst rt),
       total_kw = total_kw (fst rt), kwh_import = kwh_import (fst rt),
       post_datetime = snd rt, KWh = k, source = source_name \<rparr>"

text \<open>
  The result is the warning shown, if any, and the frame returned (empty when a required
  column is missing). The text of the warning is the one of app.py; pp.py puts a cross mark
  before it and quotes around the name.
\<close>

definition process_source ::
  "(string \<Rightarrow> int option) \<Rightarrow> (int list \<Rightarrow> nat list) \<Rightarrow> csv \<Rightarrow> string \<Rightarrow> message list \<times> reading list" where
  "process_source to_datetime argsort uploaded_file source_name =
     (if \<not> list_all (\<lambda>col. col \<in> set (columns uploaded_file)) required
      then ([warning (''Missing required columns in '' @ source_name)], [])
      else
        let df = map (\<lambda>r. (r, coerce_datetime to_datetime r)) (rows uploaded_file);
            df = sort_values argsort snd df;
            kwh = derive_kwh (map (\<lambda>rt. kwh_import (fst rt)) df)
        in ([], map2 (make_reading source_name) df kwh))"

subsection \<open>Process and combine\<close>

record uploads =
  utility_file :: "csv option"
  gen1_file :: "csv option"
  gen2_file :: "csv option"

text \<open>
  One \<open>if utility_file: ...\<close> block: the messages shown and the frames appended to
  \<open>dataframes\<close> (none for no file, and none for an empty frame). The text of the success
  message is the one of pp.py without its check mark; app.py says \<open>file processed\<close>.
\<close>

definition load_source ::
  "(string \<Rightarrow> int option) \<Rightarrow> (int list \<Rightarrow> nat list) \<Rightarrow> csv option \<Rightarrow> string
     \<Rightarrow> message list \<times> reading list list" where
  "load_source to_datetime argsort file source_name =
     (case file of
        None \<Rightarrow> ([], [])
      | Some uploaded_file \<Rightarrow>
          (let (msgs, df) = process_source to_datetime argsort uploaded_file source_name
           in if df \<noteq> [] then (msgs @ [success (source_name @ '' data loaded.'')], [df])
              else (msgs, [])))"

definition load_all ::
  "(string \<Rightarrow> int option) \<Rightarrow> (int list \<Rightarrow> nat list) \<Rightarrow> uploads
     \<Rightarrow> message list \<times> reading list list" where
  "load_all to_datetime argsort u =
     (let (m1, d1) = load_source to_datetime argsort (utility_file u) ''Utility'';
          (m2, d2) = load_source to_datetime argsort (gen1_file u) ''Gen1'';
          (m3, d3) = load_source to_datetime argsort (gen2_file u) ''Gen2''
      in (m1 @ m2 @ m3, d1 @ d2 @ d3))"

text \<open>\<open>pd.concat(dataframes, ignore_index=True)\<close>\<close>

definition pd_concat :: "'a list list \<Rightarrow> 'a list" where
  "pd_concat dataframes = concat dataframes"

subsection \<open>Expected fuel and cost (pp.py)\<close>

definition GEN_EFFICIENCY_KWH_PER_L :: f64 where
  "GEN_EFFICIENCY_KWH_PER_L = Fin (33 / 10)"

definition TARIFF_UTILITY :: f64 where
  "TARIFF_UTILITY = Fin (419 / 2)"

definition TARIFF_GEN :: f64 where
  "TARIFF_GEN = Fin 1000"

text \<open>\<open>df.loc[mask, col] = new\<close>: the cells of the masked rows are replaced.\<close>

definition assign_where :: "bool list \<Rightarrow> f64 list \<Rightarrow> f64 list \<Rightarrow> f64 list" where
  "assign_where msk col new = map (\<lambda>(m, c, n). if m then n else c) (zip msk (zip col new))"

definition expected_fuel_liters_col :: "reading list \<Rightarrow> f64 list" where
  "expected_fuel_liters_col combined_df =
     fold (\<lambda>gen_source col.
             assign_where (map (\<lambda>r. source r = gen_source) combined_df) col
               (map (\<lambda>r. np_round 2 (f_div (KWh r) GEN_EFFICIENCY_KWH_PER_L)) combined_df))
       [''Gen1'', ''Gen2''] (map (\<lambda>r. Fin 0) combined_df)"

definition cost_ngn_col :: "reading list \<Rightarrow> f64 list \<Rightarrow> f64 list" where
  "cost_ngn_col combined_df fuel =
     (let cost = map (\<lambda>r. Fin 0) combined_df;
          cost = assign_where (map (\<lambda>r. source r = ''Utility'') combined_df) cost
                   (map (\<lambda>r. f_mul (KWh r) TARIFF_UTILITY) combined_df);
          cost = fold (\<lambda>gen_source col.
                         assign_where (map (\<lambda>r. source r = gen_source) combined_df) col
                           (map (\<lambda>l. f_mul l TARIFF_GEN) fuel))
                   [''Gen1'', ''Gen2''] cost
      in map (np_round 2) cost)"

record econ_row = reading +
  expected_fuel_liters :: f64
  cost_ngn :: f64

definition economics :: "reading list \<Rightarrow> econ_row list" where
  "economics combined_df =
     (let fuel = expected_fuel_liters_col combined_df;
          cost = cost_ngn_col combined_df fuel
      in map (\<lambda>(r, l, c). reading.extend r \<lparr> expected_fuel_liters = l, cost_ngn = c \<rparr>)
           (zip combined_df (zip fuel cost)))"

subsection \<open>Summaries by source (pp.py)\<close>

text \<open>\<open>groupby('source')\<close>: the groups in ascending order of the key.\<close>

definition group_keys :: "string list \<Rightarrow> string list" where
  "group_keys ss = sort (remdups ss)"

definition groupby_sum :: "('a \<Rightarrow> string) \<Rightarrow> ('a \<Rightarrow> f64) \<Rightarrow> 'a list \<Rightarrow> (string \<times> f64) list" where
  "groupby_sum key col df =
     map (\<lambda>s. (s, f_sum (map col (filter (\<lambda>r. key r = s) df)))) (group_keys (map key df))"

text \<open>
  The percentage column before \<open>.astype(str) + '%'\<close>: a NaN cell is shown as \<open>nan%\<close>, an
  infinite one as \<open>inf%\<close> or \<open>-inf%\<close>.
\<close>

definition percent_of_total :: "f64 list \<Rightarrow> f64 list" where
  "percent_of_total col =
     (let total = f_sum col
      in map (\<lambda>x. np_round 1 (f_mul (f_div x total) (Fin 100))) col)"

definition with_percent :: "(string \<times> f64) list \<Rightarrow> (string \<times> f64 \<times> f64) list" where
  "with_percent s = map (\<lambda>((k, v), p). (k, v, p)) (zip s (percent_of_total (map snd s)))"

definition summary :: "econ_row list \<Rightarrow> (string \<times> f64 \<times> f64) list" where
  "summary combined_df =
     with_percent (map (\<lambda>(s, v). (s, np_round 2 v)) (groupby_sum source KWh combined_df))"

definition fuel_summary :: "econ_row list \<Rightarrow> (string \<times> f64) list" where
  "fuel_summary combined_df =
     map (\<lambda>(s, v). (s, np_round 2 v))
       (groupby_sum source expected_fuel_liters
          (filter (\<lambda>r. source r \<in> set [''Gen1'', ''Gen2'']) combined_df))"

text \<open>
  The rows of \<open>cost_summary\<close>, before they are put in descending order of the cost for the
  display.
\<close>

definition cost_summary :: "econ_row list \<Rightarrow> (string \<times> f64 \<times> f64) list" where
  "cost_summary combined_df = with_percent (groupby_sum source cost_ngn combined_df)"

subsection \<open>5-minute buckets (pp.py and app.py)\<close>

text \<open>
  \<open>combined_df.set_index('post_datetime').groupby('source')['KWh'].resample('5T').sum()\<close>
  reads the columns \<open>source\<close>, \<open>post_datetime\<close> and \<open>KWh\<close>; \<open>reset_index()\<close> returns rows
  of the same three columns.
\<close>

type_synonym chart_row = "string \<times> int option \<times> f64"

definition chart_input :: "'a reading_scheme list \<Rightarrow> chart_row list" where
  "chart_input combined_df = map (\<lambda>r. (source r, post_datetime r, KWh r)) combined_df"

datatype error = ValueError

text \<open>Five minutes, in nanoseconds; a bucket starts at a multiple of it.\<close>

definition bucket_width :: int where
  "bucket_width = 300000000000"

definition floor_bucket :: "int \<Rightarrow> int" where
  "floor_bucket t = t - t mod bucket_width"

text \<open>The rows of a group that have a timestamp: the binning leaves the NaT rows out.\<close>

fun dropna_index :: "(int option \<times> f64) list \<Rightarrow> (int \<times> f64) list" where
  "dropna_index [] = []"
| "dropna_index ((None, k) # g) = dropna_index g"
| "dropna_index ((Some t, k) # g) = (t, k) # dropna_index g"

text \<open>
  The labels of the bins of \<open>resample('5T')\<close>: every multiple of five minutes from the
  bucket of the earliest timestamp to the bucket of the latest one.
\<close>

definition bin_labels :: "int list \<Rightarrow> int list" where
  "bin_labels ts =
     (let first = floor_bucket (Min (set ts));
          last = floor_bucket (Max (set ts))
      in map (\<lambda>n. first + int n * bucket_width) [0..<nat ((last - first) div bucket_width) + 1])"

text \<open>
  \<open>resample('5T').sum()\<close> of one group: a bucket for every label, each with the sum of the
  \<open>KWh\<close> of its rows (0 for a bucket without rows). A group without any timestamp has no
  range of bins: pandas raises.
\<close>

definition resample_sum :: "(int option \<times> f64) list \<Rightarrow> error + (int \<times> f64) list" where
  "resample_sum g =
     (let obs = dropna_index g
      in if obs = [] then Inl ValueError
         else Inr (map (\<lambda>b. (b, f_sum (map snd (filter (\<lambda>tk. floor_bucket (fst tk) = b) obs))))
                     (bin_labels (map fst obs))))"

fun resample_groups :: "string list \<Rightarrow> chart_row list \<Rightarrow> error + chart_row list" where
  "resample_groups [] df = Inr []"
| "resample_groups (s # ss) df =
     (case resample_sum (map snd (filter (\<lambda>r. fst r = s) df)) of
        Inl e \<Rightarrow> Inl e
      | Inr buckets \<Rightarrow>
          (case resample_groups ss df of
             Inl e \<Rightarrow> Inl e
           | Inr rest \<Rightarrow> Inr (map (\<lambda>(b, v). (s, Some b, v)) buckets @ rest)))"

definition chart_data :: "chart_row list \<Rightarrow> error + chart_row list" where
  "chart_data df = resample_groups (group_keys (map fst df)) df"

subsection \<open>Highest and lowest bucket of every source (pp.py)\<close>

text \<open>The comparison \<open><\<close> of float64: false when an operand is NaN.\<close>

fun f_lt :: "f64 \<Rightarrow> f64 \<Rightarrow> bool" where
  "f_lt (Fin a) (Fin b) = (a < b)"
| "f_lt NaN _ = False"
| "f_lt _ NaN = False"
| "f_lt _ NInf = False"
| "f_lt PInf _ = False"
| "f_lt _ _ = True"

text \<open>
  \<open>argmax\<close> and \<open>argmin\<close>: the position of the first greatest (least) value. The loop
  keeps the best position so far and replaces it on a strictly better value only.
\<close>

fun arg_best :: "(f64 \<Rightarrow> f64 \<Rightarrow> bool) \<Rightarrow> nat \<Rightarrow> f64 \<Rightarrow> nat \<Rightarrow> f64 list \<Rightarrow> nat" where
  "arg_best better bi bv i [] = bi"
| "arg_best better bi bv i (x # xs) =
     (if better x bv then arg_best better i x (Suc i) xs
      else arg_best better bi bv (Suc i) xs)"

definition argmax :: "f64 list \<Rightarrow> nat" where
  "argmax xs = arg_best (\<lambda>x bv. f_lt bv x) 0 (hd xs) 1 (tl xs)"

definition argmin :: "f64 list \<Rightarrow> nat" where
  "argmin xs = arg_best (\<lambda>x bv. f_lt x bv) 0 (hd xs) 1 (tl xs)"

text \<open>
  \<open>Series.idxmax()\<close> and \<open>idxmin()\<close> skip NaN: the NaN cells are replaced by \<open>-inf\<close>
  (\<open>+inf\<close>) before \<open>argmax\<close> (\<open>argmin\<close>). \<open>None\<close>: no row is found (an empty or all-NaN
  column), and the lookup of the row raises.
\<close>

definition idxmax :: "f64 list \<Rightarrow> nat option" where
  "idxmax xs =
     (if xs = [] \<or> list_all isna xs then None
      else Some (argmax (map (\<lambda>x. if isna x then NInf else x) xs)))"

definition idxmin :: "f64 list \<Rightarrow> nat option" where
  "idxmin xs =
     (if xs = [] \<or> list_all isna xs then None
      else Some (argmin (map (\<lambda>x. if isna x then PInf else x) xs)))"

text \<open>\<open>Series.unique()\<close>: the distinct values in the order of their first appearance.\<close>

definition unique :: "'a list \<Rightarrow> 'a list" where
  "unique xs = rev (remdups (rev xs))"

text \<open>The body of the loop over the sources: \<open>max_row\<close> and \<open>min_row\<close> of one source.\<close>

definition high_low :: "chart_row list \<Rightarrow> string \<Rightarrow> error + chart_row \<times> chart_row" where
  "high_low chart src =
     (let source_data = filter (\<lambda>r. fst r = src) chart;
          kwh = map (\<lambda>r. snd (snd r)) source_data
      in case idxmax kwh of
           None \<Rightarrow> Inl ValueError
         | Some i \<Rightarrow>
             (case idxmin kwh of
                None \<Rightarrow> Inl ValueError
              | Some j \<Rightarrow> Inr (source_data ! i, source_data ! j)))"

fun markers :: "chart_row list \<Rightarrow> string list \<Rightarrow> error + (string \<times> chart_row \<times> chart_row) list" where
  "markers chart [] = Inr []"
| "markers chart (s # ss) =
     (case high_low chart s of
        Inl e \<Rightarrow> Inl e
      | Inr hl \<Rightarrow> (case markers chart ss of Inl e \<Rightarrow> Inl e | Inr rest \<Rightarrow> Inr ((s, hl) # rest)))"

definition line_chart ::
  "'a reading_scheme list \<Rightarrow> error + chart_row list \<times> (string \<times> chart_row \<times> chart_row) list" where
  "line_chart combined_df =
     (case chart_data (chart_input combined_df) of
        Inl e \<Rightarrow> Inl e
      | Inr cd \<Rightarrow>
          (case markers cd (unique (map fst cd)) of
             Inl e \<Rightarrow> Inl e
           | Inr hl \<Rightarrow> Inr (cd, hl)))"

subsection \<open>The page of pp.py\<close>

record dashboard =
  preview :: "econ_row list"
  energy :: "(string \<times> f64 \<times> f64) list"
  fuel :: "(string \<times> f64) list"
  cost :: "(string \<times> f64 \<times> f64) list"
  chart :: "error + chart_row list \<times> (string \<times> chart_row \<times> chart_row) list"

text \<open>
  The messages shown and, when a frame was loaded, what the page computes from
  \<open>combined_df\<close>; the preview is also the content of the CSV download. The calls that only
  display a value (\<open>st.columns\<close>, \<open>st.metric\<close>, the figure) are left out: the model has
  the values they are given.
\<close>

definition pp_main ::
  "(string \<Rightarrow> int option) \<Rightarrow> (int list \<Rightarrow> nat list) \<Rightarrow> uploads \<Rightarrow> message list \<times> dashboard option" where
  "pp_main to_datetime argsort u =
     (let (msgs, dataframes) = load_all to_datetime argsort u
      in if dataframes \<noteq> []
         then
           let combined_df = economics (pd_concat dataframes)
           in (msgs,
               Some \<lparr> preview = combined_df, energy = summary combined_df,
                      fuel = fuel_summary combined_df, cost = cost_summary combined_df,
                      chart = line_chart combined_df \<rparr>)
         else (msgs @ [info ''Please upload at least one CSV file to begin.''], None))"

subsection \<open>The economics of one record, as the specification words it\<close>


subsection \<open>What numpy promises of argsort\<close>


subsection \<open>Example inputs\<close>

text \<open>
  A parser that knows a few texts, numpy's stable \<open>argsort\<close>, and small files: the concrete
  inputs at which the theorems below are instantiated.
\<close>

definition example_to_datetime :: "string \<Rightarrow> int option" where
  "example_to_datetime =
     map_of [(''2024-01-01 00:00:00'', 1704067200000000000),
             (''2024-01-01 00:01:00'', 1704067260000000000),
             (''2024-01-01 00:02:00'', 1704067320000000000),
             (''2024-01-01 00:03:00'', 1704067380000000000),
             (''2024-01-01 00:12:00'', 1704067920000000000)]"

definition stable_argsort :: "int list \<Rightarrow> nat list" where
  "stable_argsort xs = sort_key (\<lambda>i. xs ! i) [0..<length xs]"

definition csv_row :: "string \<Rightarrow> string \<Rightarrow> f64 \<Rightarrow> f64 \<Rightarrow> raw_row" where
  "csv_row d t kw c = \<lparr> post_date = Some d, post_time = Some t, total_kw = kw, kwh_import = c \<rparr>"

definition example_file :: csv where
  "example_file =
     \<lparr> columns = [''post_date'', ''post_time'', ''total_kw'', ''kwh_import''],
       rows = [csv_row ''2024-01-01'' ''00:01:00'' (Fin 3) (Fin (25 / 2)),
               csv_row ''2024-01-01'' ''00:00:00'' (Fin 3) (Fin 10),
               csv_row ''2024-01-01'' ''00:03:00'' (Fin 3) (Fin 20),
               csv_row ''2024-01-01'' ''00:02:00'' (Fin 3) (Fin (25 / 2))] \<rparr>"


definition single_row_file :: csv where
  "single_row_file =
     \<lparr> columns = [''post_date'', ''post_time'', ''total_kw'', ''kwh_import''],
       rows = [csv_row ''2024-01-01'' ''00:00:00'' (Fin 3) (Fin 10)] \<rparr>"

definition only_gen1 :: "csv \<Rightarrow> uploads" where
  "only_gen1 f = \<lparr> utility_file = None, gen1_file = Some f, gen2_file = None \<rparr>"

definition no_total_kw_file :: csv where
  "no_total_kw_file =
     \<lparr> columns = [''post_date'', ''post_time'', ''kwh_import''],
       rows = [csv_row ''2024-01-01'' ''00:00:00'' NaN (Fin 10),
               csv_row ''2024-01-01'' ''00:01:00'' NaN (Fin 11)] \<rparr>"






definition tie_bucket_file :: csv where
  "tie_bucket_file =
     \<lparr> columns = [''post_date'', ''post_time'', ''total_kw'', ''kwh_import''],
       rows = [csv_row ''2024-01-01'' ''00:00:00'' (Fin 3) (Fin 10),
               csv_row ''2024-01-01'' ''00:03:00'' (Fin 3) (Fin 12),
               csv_row ''2024-01-01'' ''00:12:00'' (Fin 3) (Fin 14)] \<rparr>"

section \<open>Properties\<close>

subsection \<open>The derived column KWh\<close>

lemma length_diff [simp]: "length (diff xs) = length xs"
  by (cases xs) simp_all

lemma length_derive_kwh [simp]: "length (derive_kwh xs) = length xs"
  by (simp add: derive_kwh_def fillna_def)




lemma f_sub_Fin [simp]: "f_sub (Fin a) (Fin b) = Fin (a - b)"
  by (simp add: f_sub_def)

lemma f_sub_NaN [simp]: "f_sub NaN y = NaN" "f_sub x NaN = NaN"
  by (cases x; simp add: f_sub_def)+













subsection \<open>Fuel and cost\<close>







subsection \<open>Percentages of the total\<close>

lemma map_zip_map: "map h (zip xs (map g xs)) = map (\<lambda>x. h (x, g x)) xs"
  by (induction xs) simp_all

lemma with_percent_eq:
  "with_percent s =
     map (\<lambda>kv. (fst kv, snd kv, np_round 1 (f_mul (f_div (snd kv) (f_sum (map snd s))) (Fin 100)))) s"
  unfolding with_percent_def percent_of_total_def Let_def
  by (simp add: map_zip_map case_prod_beta o_def)

lemma with_percent_values: "map (\<lambda>kvp. fst (snd kvp)) (with_percent s) = map snd s"
  by (simp add: with_percent_eq o_def)

lemma percent_of_zero_total:
  "np_round 1 (f_mul (f_div v (Fin 0)) (Fin 100)) =
     (case v of Fin x \<Rightarrow> if x = 0 then NaN else if 0 < x then PInf else NInf
      | NaN \<Rightarrow> NaN | PInf \<Rightarrow> PInf | NInf \<Rightarrow> NInf)"
  by (cases v) (simp_all add: signed_inf_def)

lemma with_percent_zero_total:
  assumes "f_sum (map (\<lambda>kvp. fst (snd kvp)) (with_percent s)) = Fin 0"
    and "(k, v, p) \<in> set (with_percent s)"
  shows "p = (case v of Fin x \<Rightarrow> if x = 0 then NaN else if 0 < x then PInf else NInf
              | NaN \<Rightarrow> NaN | PInf \<Rightarrow> PInf | NInf \<Rightarrow> NInf)"
proof -
  have total: "f_sum (map snd s) = Fin 0"
    using assms(1) by (simp only: with_percent_values)
  have "p = np_round 1 (f_mul (f_div v (f_sum (map snd s))) (Fin 100))"
    using assms(2) unfolding with_percent_eq by auto
  then show ?thesis
    unfolding total percent_of_zero_total .
qed

text \<open>
  C2. The percentage column divides by the total without a guard. When the total of the
  table (the energy summary or the cost summary) is zero, the percentage of a source is not
  0: it is NaN for a source whose own value is zero, and an infinity with the sign of the
  value otherwise. The division raises nothing: the summaries are total functions.
\<close>

theorem zero_total_percentage_is_not_a_number:
  assumes "tbl = summary combined_df \<or> tbl = cost_summary combined_df"
    and "f_sum (map (\<lambda>kvp. fst (snd kvp)) tbl) = Fin 0"
    and "(k, v, p) \<in> set tbl"
  shows "\<not> is_finite p \<and> (v = Fin 0 \<longrightarrow> p = NaN) \<and>
         (\<forall>x. v = Fin x \<and> 0 < x \<longrightarrow> p = PInf) \<and> (\<forall>x. v = Fin x \<and> x < 0 \<longrightarrow> p = NInf)"
proof -
  obtain s where s: "tbl = with_percent s"
    using assms(1) unfolding summary_def cost_summary_def by blast
  have p: "p = (case v of Fin x \<Rightarrow> if x = 0 then NaN else if 0 < x then PInf else NInf
              | NaN \<Rightarrow> NaN | PInf \<Rightarrow> PInf | NInf \<Rightarrow> NInf)"
    using assms(2,3) unfolding s by (rule with_percent_zero_total)
  show ?thesis
    unfolding p by (cases v) auto
qed

text \<open>
  A Gen1 file with a single row: its \<open>KWh\<close> is 0, both totals are 0, and both percentages
  are NaN (shown as \<open>nan%\<close>), not 0.
\<close>

theorem zero_total_counterexample:
  "map_option energy (snd (pp_main example_to_datetime stable_argsort (only_gen1 single_row_file))) =
     Some [(''Gen1'', Fin 0, NaN)] \<and>
   map_option cost (snd (pp_main example_to_datetime stable_argsort (only_gen1 single_row_file))) =
     Some [(''Gen1'', Fin 0, NaN)]"
  by code_simp

theorem zero_total_percentage_is_not_a_number_witness:
  "f_sum (map (\<lambda>kvp. fst (snd kvp))
      (summary (economics (snd (process_source example_to_datetime stable_argsort single_row_file ''Gen1''))))) = Fin 0 \<and>
   (''Gen1'', Fin 0, NaN) \<in>
      set (summary (economics (snd (process_source example_to_datetime stable_argsort single_row_file ''Gen1'')))) \<and>
   \<not> is_finite NaN"
proof -
  let ?tbl = "summary (economics (snd (process_source example_to_datetime stable_argsort single_row_file ''Gen1'')))"
  have h1: "f_sum (map (\<lambda>kvp. fst (snd kvp)) ?tbl) = Fin 0" by code_simp
  have h2: "(''Gen1'', Fin 0, NaN) \<in> set ?tbl" by code_simp
  have "\<not> is_finite NaN"
    using zero_total_percentage_is_not_a_number [OF disjI1 [OF refl] h1 h2] by (rule conjunct1)
  then show ?thesis
    using h1 h2 by (intro conjI)
qed

subsection \<open>A file without a required column\<close>

lemma process_source_missing:
  "\<not> list_all (\<lambda>col. col \<in> set (columns bad)) required \<Longrightarrow>
     process_source to_datetime argsort bad source_name =
       ([warning (''Missing required columns in '' @ source_name)], [])"
  by (simp add: process_source_def)

lemma load_source_missing:
  "\<not> list_all (\<lambda>col. col \<in> set (columns bad)) required \<Longrightarrow>
     load_source to_datetime argsort (Some bad) source_name =
       ([warning (''Missing required columns in '' @ source_name)], [])"
  by (simp add: load_source_def process_source_missing)

lemma load_source_None: "load_source to_datetime argsort None source_name = ([], [])"
  by (simp add: load_source_def)

lemma load_source_messages:
  "m \<in> set (fst (load_source to_datetime argsort upl source_name)) \<Longrightarrow>
     m = warning (''Missing required columns in '' @ source_name) \<or>
     m = success (source_name @ '' data loaded.'')"
  by (cases upl)
    (auto simp: load_source_def process_source_def Let_def split: if_splits)

lemma load_all_eq:
  "load_all to_datetime argsort u =
     (fst (load_source to_datetime argsort (utility_file u) ''Utility'') @
      fst (load_source to_datetime argsort (gen1_file u) ''Gen1'') @
      fst (load_source to_datetime argsort (gen2_file u) ''Gen2''),
      snd (load_source to_datetime argsort (utility_file u) ''Utility'') @
      snd (load_source to_datetime argsort (gen1_file u) ''Gen1'') @
      snd (load_source to_datetime argsort (gen2_file u) ''Gen2''))"
  by (simp add: load_all_def case_prod_beta)

lemma pp_main_snd_cong:
  "snd (load_all to_datetime argsort u) = snd (load_all to_datetime argsort u') \<Longrightarrow>
     snd (pp_main to_datetime argsort u) = snd (pp_main to_datetime argsort u')"
  by (simp add: pp_main_def case_prod_beta Let_def)

lemma pp_main_fst:
  "fst (pp_main to_datetime argsort u) =
     fst (load_all to_datetime argsort u) @
     (if snd (load_all to_datetime argsort u) \<noteq> [] then []
      else [info ''Please upload at least one CSV file to begin.''])"
  by (simp add: pp_main_def case_prod_beta Let_def)

lemma filter_other_messages:
  assumes "source_name \<noteq> other"
  shows "filter (\<lambda>m. m \<noteq> warning (''Missing required columns in '' @ other))
           (fst (load_source to_datetime argsort upl source_name)) =
         fst (load_source to_datetime argsort upl source_name)"
proof -
  have "m \<noteq> warning (''Missing required columns in '' @ other)"
    if "m \<in> set (fst (load_source to_datetime argsort upl source_name))" for m
    using load_source_messages [OF that] assms by auto
  then show ?thesis
    by (simp add: filter_id_conv)
qed

lemma load_all_snd_missing:
  assumes "\<not> list_all (\<lambda>col. col \<in> set (columns bad)) required"
  shows "snd (load_all to_datetime argsort (u\<lparr>utility_file := Some bad\<rparr>)) =
           snd (load_all to_datetime argsort (u\<lparr>utility_file := None\<rparr>))"
    and "snd (load_all to_datetime argsort (u\<lparr>gen1_file := Some bad\<rparr>)) =
           snd (load_all to_datetime argsort (u\<lparr>gen1_file := None\<rparr>))"
    and "snd (load_all to_datetime argsort (u\<lparr>gen2_file := Some bad\<rparr>)) =
           snd (load_all to_datetime argsort (u\<lparr>gen2_file := None\<rparr>))"
  by (simp_all add: load_all_eq load_source_missing [OF assms] load_source_None)

lemma load_all_fst_missing:
  assumes "\<not> list_all (\<lambda>col. col \<in> set (columns bad)) required"
  shows "filter (\<lambda>m. m \<noteq> warning (''Missing required columns in '' @ ''Utility''))
           (fst (load_all to_datetime argsort (u\<lparr>utility_file := Some bad\<rparr>))) =
         fst (load_all to_datetime argsort (u\<lparr>utility_file := None\<rparr>))"
    and "filter (\<lambda>m. m \<noteq> warning (''Missing required columns in '' @ ''Gen1''))
           (fst (load_all to_datetime argsort (u\<lparr>gen1_file := Some bad\<rparr>))) =
         fst (load_all to_datetime argsort (u\<lparr>gen1_file := None\<rparr>))"
    and "filter (\<lambda>m. m \<noteq> warning (''Missing required columns in '' @ ''Gen2''))
           (fst (load_all to_datetime argsort (u\<lparr>gen2_file := Some bad\<rparr>))) =
         fst (load_all to_datetime argsort (u\<lparr>gen2_file := None\<rparr>))"
proof -
  define wu where "wu = warning (''Missing required columns in '' @ ''Utility'')"
  define w1 where "w1 = warning (''Missing required columns in '' @ ''Gen1'')"
  define w2 where "w2 = warning (''Missing required columns in '' @ ''Gen2'')"
  have ne: "''Gen1'' \<noteq> ''Utility''" "''Gen2'' \<noteq> ''Utility''" "''Utility'' \<noteq> ''Gen1''"
    "''Gen2'' \<noteq> ''Gen1''" "''Utility'' \<noteq> ''Gen2''" "''Gen1'' \<noteq> ''Gen2''"
    by simp_all
  note other = ne [THEN filter_other_messages, folded wu_def w1_def w2_def]
  note bad = load_source_missing [OF assms, of _ _ "''Utility''", folded wu_def]
    load_source_missing [OF assms, of _ _ "''Gen1''", folded w1_def]
    load_source_missing [OF assms, of _ _ "''Gen2''", folded w2_def]
  show "filter (\<lambda>m. m \<noteq> warning (''Missing required columns in '' @ ''Utility''))
           (fst (load_all to_datetime argsort (u\<lparr>utility_file := Some bad\<rparr>))) =
         fst (load_all to_datetime argsort (u\<lparr>utility_file := None\<rparr>))"
    unfolding load_all_eq fst_conv filter_append wu_def [symmetric]
    by (simp add: other bad load_source_None)
  show "filter (\<lambda>m. m \<noteq> warning (''Missing required columns in '' @ ''Gen1''))
           (fst (load_all to_datetime argsort (u\<lparr>gen1_file := Some bad\<rparr>))) =
         fst (load_all to_datetime argsort (u\<lparr>gen1_file := None\<rparr>))"
    unfolding load_all_eq fst_conv filter_append w1_def [symmetric]
    by (simp add: other bad load_source_None)
  show "filter (\<lambda>m. m \<noteq> warning (''Missing required columns in '' @ ''Gen2''))
           (fst (load_all to_datetime argsort (u\<lparr>gen2_file := Some bad\<rparr>))) =
         fst (load_all to_datetime argsort (u\<lparr>gen2_file := None\<rparr>))"
    unfolding load_all_eq fst_conv filter_append w2_def [symmetric]
    by (simp add: other bad load_source_None)
qed

lemma pp_main_fst_filter:
  assumes "snd (load_all to_datetime argsort u) = snd (load_all to_datetime argsort u')"
    and "filter (\<lambda>m. m \<noteq> warning w) (fst (load_all to_datetime argsort u)) =
         fst (load_all to_datetime argsort u')"
  shows "filter (\<lambda>m. m \<noteq> warning w) (fst (pp_main to_datetime argsort u)) =
         fst (pp_main to_datetime argsort u')"
  unfolding pp_main_fst filter_append assms by simp

text \<open>
  C4. A file that lacks one of the columns \<open>post_date\<close>, \<open>post_time\<close>, \<open>total_kw\<close>,
  \<open>kwh_import\<close> gives an empty frame and one warning. In whichever of the three places it
  is uploaded, the page computes what it computes without that file (the preview, the
  summaries, the chart), and shows the same messages but for the warning.
\<close>

theorem missing_column_is_isolated:
  assumes "\<not> list_all (\<lambda>col. col \<in> set (columns bad)) required"
  shows "process_source to_datetime argsort bad source_name =
           ([warning (''Missing required columns in '' @ source_name)], []) \<and>
         snd (pp_main to_datetime argsort (u\<lparr>utility_file := Some bad\<rparr>)) =
           snd (pp_main to_datetime argsort (u\<lparr>utility_file := None\<rparr>)) \<and>
         snd (pp_main to_datetime argsort (u\<lparr>gen1_file := Some bad\<rparr>)) =
           snd (pp_main to_datetime argsort (u\<lparr>gen1_file := None\<rparr>)) \<and>
         snd (pp_main to_datetime argsort (u\<lparr>gen2_file := Some bad\<rparr>)) =
           snd (pp_main to_datetime argsort (u\<lparr>gen2_file := None\<rparr>)) \<and>
         filter (\<lambda>m. m \<noteq> warning (''Missing required columns in '' @ ''Utility''))
           (fst (pp_main to_datetime argsort (u\<lparr>utility_file := Some bad\<rparr>))) =
           fst (pp_main to_datetime argsort (u\<lparr>utility_file := None\<rparr>)) \<and>
         filter (\<lambda>m. m \<noteq> warning (''Missing required columns in '' @ ''Gen1''))
           (fst (pp_main to_datetime argsort (u\<lparr>gen1_file := Some bad\<rparr>))) =
           fst (pp_main to_datetime argsort (u\<lparr>gen1_file := None\<rparr>)) \<and>
         filter (\<lambda>m. m \<noteq> warning (''Missing required columns in '' @ ''Gen2''))
           (fst (pp_main to_datetime argsort (u\<lparr>gen2_file := Some bad\<rparr>))) =
           fst (pp_main to_datetime argsort (u\<lparr>gen2_file := None\<rparr>))"
proof -
  note frames = load_all_snd_missing [OF assms, of to_datetime argsort u]
  note msgs = load_all_fst_missing [OF assms, of to_datetime argsort u]
  show ?thesis
    using process_source_missing [OF assms, of to_datetime argsort source_name]
      frames [THEN pp_main_snd_cong]
      pp_main_fst_filter [OF frames(1) msgs(1)]
      pp_main_fst_filter [OF frames(2) msgs(2)]
      pp_main_fst_filter [OF frames(3) msgs(3)]
    by (intro conjI)
qed

theorem missing_column_is_isolated_witness:
  "\<not> list_all (\<lambda>col. col \<in> set (columns no_total_kw_file)) required \<and>
   process_source example_to_datetime stable_argsort no_total_kw_file ''Utility'' =
     ([warning (''Missing required columns in '' @ ''Utility'')], []) \<and>
   snd (pp_main example_to_datetime stable_argsort
          ((only_gen1 example_file)\<lparr>utility_file := Some no_total_kw_file\<rparr>)) =
     snd (pp_main example_to_datetime stable_argsort ((only_gen1 example_file)\<lparr>utility_file := None\<rparr>))"
proof -
  have h: "\<not> list_all (\<lambda>col. col \<in> set (columns no_total_kw_file)) required"
    by code_simp
  note th = missing_column_is_isolated
    [OF h, of example_to_datetime stable_argsort "''Utility''" "only_gen1 example_file"]
  show ?thesis
    using h conjunct1 [OF th] conjunct1 [OF conjunct2 [OF th]] by (intro conjI)
qed

subsection \<open>Rounding keeps the sign\<close>















subsection \<open>The order of the rows\<close>










lemma truncate_make_reading [simp]: "raw_row.truncate (make_reading n rt k) = fst rt"
  by (simp add: make_reading_def raw_row.defs)

lemma post_datetime_make_reading [simp]: "post_datetime (make_reading n rt k) = snd rt"
  by (simp add: make_reading_def)







subsection \<open>Sums\<close>

lemma f_add_assoc: "f_add (f_add a b) c = f_add a (f_add b c)"
  by (cases a; cases b; cases c) simp_all

lemma f_add_commute: "f_add a b = f_add b a"
  by (cases a; cases b) simp_all




lemma f_sum_Nil [simp]: "f_sum [] = Fin 0"
  by (simp add: f_sum_def)

lemma foldl_f_add_finite:
  "list_all is_finite xs \<Longrightarrow> is_finite (foldl f_add (Fin a) xs)"
proof (induction xs arbitrary: a)
  case Nil
  then show ?case by simp
next
  case (Cons x xs)
  then obtain b where "x = Fin b" by (cases x) simp_all
  then show ?case using Cons by simp
qed

lemma f_sum_finite: "list_all is_finite xs \<Longrightarrow> is_finite (f_sum xs)"
proof -
  assume a: "list_all is_finite xs"
  then have "list_all is_finite (filter (\<lambda>x. \<not> isna x) xs)"
    by (simp add: list_all_iff)
  then show ?thesis
    unfolding f_sum_def by (rule foldl_f_add_finite)
qed

subsection \<open>Bins\<close>

lemma bucket_width_pos: "0 < bucket_width"
  by (simp add: bucket_width_def)

lemma floor_bucket_eq: "floor_bucket t = (t div bucket_width) * bucket_width"
  unfolding floor_bucket_def by (simp add: minus_mod_eq_div_mult)

lemma floor_bucket_multiple [simp]: "floor_bucket (k * bucket_width) = k * bucket_width"
  using bucket_width_pos by (simp add: floor_bucket_eq)

lemma floor_bucket_shift [simp]:
  "floor_bucket (floor_bucket t + int n * bucket_width) = floor_bucket t + int n * bucket_width"
proof -
  have "floor_bucket t + int n * bucket_width = (t div bucket_width + int n) * bucket_width"
    by (simp add: floor_bucket_eq algebra_simps)
  then show ?thesis
    by (simp only: floor_bucket_multiple)
qed

lemma floor_bucket_idem [simp]: "floor_bucket (floor_bucket t) = floor_bucket t"
  using floor_bucket_shift [of t 0] by simp

lemma floor_bucket_mono: "s \<le> t \<Longrightarrow> floor_bucket s \<le> floor_bucket t"
  unfolding floor_bucket_eq using bucket_width_pos
  by (simp add: zdiv_mono1)

lemma floor_bucket_diff:
  assumes "s \<le> t"
  shows "int (nat ((floor_bucket t - floor_bucket s) div bucket_width)) * bucket_width =
         floor_bucket t - floor_bucket s"
proof -
  have d: "floor_bucket t - floor_bucket s = (t div bucket_width - s div bucket_width) * bucket_width"
    by (simp add: floor_bucket_eq algebra_simps)
  have "0 \<le> t div bucket_width - s div bucket_width"
    using assms bucket_width_pos by (simp add: zdiv_mono1)
  then show ?thesis
    unfolding d using bucket_width_pos by simp
qed




lemma bin_labels_eq:
  "bin_labels ts =
     map (\<lambda>k. floor_bucket (Min (set ts)) + int k * bucket_width)
       [0..<nat ((floor_bucket (Max (set ts)) - floor_bucket (Min (set ts))) div bucket_width) + 1]"
  by (simp add: bin_labels_def Let_def)



lemma bin_labels_increasing: "sorted_wrt (<) (bin_labels ts)"
proof -
  have "sorted_wrt (<) (map (\<lambda>k. first + int k * bucket_width) [0..<n])" for first n
  proof -
    have "sorted_wrt (\<lambda>x y. first + int x * bucket_width < first + int y * bucket_width) [0..<n]"
      by (rule sorted_wrt_mono_rel [OF _ sorted_wrt_upt]) (use bucket_width_pos in simp)
    then show ?thesis
      by (simp add: sorted_wrt_map)
  qed
  then show ?thesis
    unfolding bin_labels_eq by blast
qed

subsection \<open>The buckets of one group\<close>








lemma resample_sum_labels:
  assumes "resample_sum g = Inr bs"
  shows "map fst bs = bin_labels (map fst (dropna_index g))"
  using assms by (auto simp: resample_sum_def Let_def o_def split: if_splits)

lemma resample_sum_Inl: "resample_sum g = Inl e \<longleftrightarrow> dropna_index g = []"
  by (cases e) (simp add: resample_sum_def Let_def)




subsection \<open>The buckets of all groups\<close>


lemma set_group_keys [simp]: "set (group_keys ss) = set ss"
  by (simp add: group_keys_def)

lemma distinct_group_keys [simp]: "distinct (group_keys ss)"
  by (simp add: group_keys_def)




text \<open>What \<open>resample_groups\<close> returns: the buckets of every group, group after group.\<close>

lemma resample_groups_Inr:
  assumes "resample_groups keys df = Inr cd"
  shows "(\<forall>s\<in>set keys. \<exists>bs. resample_sum (map snd (filter (\<lambda>r. fst r = s) df)) = Inr bs) \<and>
         cd = concat (map (\<lambda>s. map (\<lambda>bv. (s, Some (fst bv), snd bv))
                  (projr (resample_sum (map snd (filter (\<lambda>r. fst r = s) df))))) keys)"
  using assms
proof (induction keys arbitrary: cd)
  case Nil
  then show ?case by simp
next
  case (Cons s ss)
  from Cons.prems obtain bs rest where
    bs: "resample_sum (map snd (filter (\<lambda>r. fst r = s) df)) = Inr bs"
    and rest: "resample_groups ss df = Inr rest"
    and cd: "cd = map (\<lambda>(b, v). (s, Some b, v)) bs @ rest"
    by (auto split: sum.splits)
  note ih = Cons.IH [OF rest]
  show ?case
    using bs ih by (simp add: cd case_prod_beta)
qed



lemma filter_block:
  "filter (\<lambda>r. fst r = s) (map (\<lambda>bv. (k, Some (fst bv), snd bv)) bs) =
     (if k = s then map (\<lambda>bv. (s, Some (fst bv), snd bv)) bs else [])"
  by (induction bs) auto

lemma filter_blocks:
  "distinct keys \<Longrightarrow>
     filter (\<lambda>r. fst r = s) (concat (map (\<lambda>k. map (\<lambda>bv. (k, Some (fst bv), snd bv)) (B k)) keys)) =
       (if s \<in> set keys then map (\<lambda>bv. (s, Some (fst bv), snd bv)) (B s) else [])"
proof (induction keys)
  case Nil
  then show ?case by simp
next
  case (Cons k ks)
  then have ih: "filter (\<lambda>r. fst r = s) (concat (map (\<lambda>k. map (\<lambda>bv. (k, Some (fst bv), snd bv)) (B k)) ks)) =
       (if s \<in> set ks then map (\<lambda>bv. (s, Some (fst bv), snd bv)) (B s) else [])"
    by simp
  show ?case
  proof (cases "k = s")
    case True
    then have "s \<notin> set ks" using Cons.prems by simp
    then show ?thesis using True ih by (simp add: filter_block)
  next
    case False
    then show ?thesis using ih by (simp add: filter_block)
  qed
qed

text \<open>The chart rows of a successful \<open>chart_data\<close>, source by source.\<close>

lemma chart_data_blocks:
  assumes "chart_data df = Inr cd"
  shows "\<exists>B. (\<forall>s\<in>set (map fst df). resample_sum (map snd (filter (\<lambda>r. fst r = s) df)) = Inr (B s)) \<and>
             cd = concat (map (\<lambda>s. map (\<lambda>bv. (s, Some (fst bv), snd bv)) (B s))
                    (group_keys (map fst df)))"
proof -
  define B where "B = (\<lambda>s. projr (resample_sum (map snd (filter (\<lambda>r. fst r = s) df))))"
  note r = resample_groups_Inr [OF assms [unfolded chart_data_def]]
  have "resample_sum (map snd (filter (\<lambda>r. fst r = s) df)) = Inr (B s)" if "s \<in> set (map fst df)" for s
  proof -
    have "s \<in> set (group_keys (map fst df))"
      using that by (simp only: set_group_keys)
    then obtain bs where "resample_sum (map snd (filter (\<lambda>r. fst r = s) df)) = Inr bs"
      using r by blast
    then show ?thesis by (simp add: B_def)
  qed
  moreover have "cd = concat (map (\<lambda>s. map (\<lambda>bv. (s, Some (fst bv), snd bv)) (B s))
                    (group_keys (map fst df)))"
    using r by (simp only: B_def)
  ultimately show ?thesis by blast
qed

subsection \<open>Bucketing again, and in another order\<close>

lemma set_dropna_index: "(t, k) \<in> set (dropna_index g) \<longleftrightarrow> (Some t, k) \<in> set g"
  by (induction g rule: dropna_index.induct) auto

lemma resample_sum_finite:
  assumes "resample_sum g = Inr bs" and "list_all (\<lambda>tk. is_finite (snd tk)) g"
  shows "list_all (\<lambda>bv. is_finite (snd bv)) bs"
proof -
  have fin: "list_all is_finite (map snd (filter P (dropna_index g)))" for P
    using assms(2) by (auto simp: list_all_iff set_dropna_index)
  have "bs = map (\<lambda>b. (b, f_sum (map snd (filter (\<lambda>tk. floor_bucket (fst tk) = b) (dropna_index g)))))
               (bin_labels (map fst (dropna_index g)))"
    using assms(1) by (auto simp: resample_sum_def Let_def split: if_splits)
  then show ?thesis
    using f_sum_finite [OF fin] by (simp add: list_all_iff)
qed

lemma chart_data_finite:
  assumes "chart_data df = Inr cd" and "list_all (\<lambda>r. is_finite (snd (snd r))) df"
  shows "list_all (\<lambda>r. is_finite (snd (snd r))) cd"
proof -
  obtain B where B: "\<forall>s\<in>set (map fst df). resample_sum (map snd (filter (\<lambda>r. fst r = s) df)) = Inr (B s)"
    and cd: "cd = concat (map (\<lambda>s. map (\<lambda>bv. (s, Some (fst bv), snd bv)) (B s)) (group_keys (map fst df)))"
    using chart_data_blocks [OF assms(1)] by blast
  have "list_all (\<lambda>bv. is_finite (snd bv)) (B s)" if s: "s \<in> set (map fst df)" for s
  proof (rule resample_sum_finite)
    show "resample_sum (map snd (filter (\<lambda>r. fst r = s) df)) = Inr (B s)"
      using B s by blast
    show "list_all (\<lambda>tk. is_finite (snd tk)) (map snd (filter (\<lambda>r. fst r = s) df))"
      using assms(2) by (auto simp: list_all_iff)
  qed
  then show ?thesis
    unfolding cd by (auto simp: list_all_iff)
qed

lemma is_finite_not_isna: "is_finite x \<Longrightarrow> \<not> isna x"
  by (cases x) simp_all






subsection \<open>The first greatest and the first least value\<close>

lemma f_lt_irrefl [simp]: "\<not> f_lt x x"
  by (cases x) simp_all

lemma f_lt_asym: "f_lt x y \<Longrightarrow> \<not> f_lt y x"
  by (cases x; cases y) simp_all

lemma f_lt_trans_le:
  "\<not> isna x \<Longrightarrow> \<not> isna y \<Longrightarrow> \<not> isna z \<Longrightarrow> f_lt y x \<Longrightarrow> \<not> f_lt y z \<Longrightarrow> f_lt z x"
  by (cases x; cases y; cases z) simp_all

lemma f_lt_le_trans:
  "\<not> isna x \<Longrightarrow> \<not> isna y \<Longrightarrow> \<not> isna z \<Longrightarrow> f_lt x y \<Longrightarrow> \<not> f_lt z y \<Longrightarrow> f_lt x z"
  by (cases x; cases y; cases z) simp_all

text \<open>
  The loop of \<open>arg_best\<close>: \<open>pre\<close> are the values seen, \<open>bi\<close> is the first position of a
  best one among them.
\<close>

lemma arg_best_first:
  assumes trans: "\<And>x y z. x \<in> S \<Longrightarrow> y \<in> S \<Longrightarrow> z \<in> S \<Longrightarrow> better x y \<Longrightarrow> \<not> better z y \<Longrightarrow> better x z"
    and asym: "\<And>x y. better x y \<Longrightarrow> \<not> better y x"
    and vals: "set (pre @ xs) \<subseteq> S"
    and bi: "bi < length pre" "pre ! bi = bv"
    and best: "\<forall>k<length pre. \<not> better (pre ! k) bv"
    and first: "\<forall>k<bi. better bv (pre ! k)"
    and i: "i = length pre"
  shows "arg_best better bi bv i xs < length (pre @ xs) \<and>
         (\<forall>k<length (pre @ xs). \<not> better ((pre @ xs) ! k) ((pre @ xs) ! arg_best better bi bv i xs)) \<and>
         (\<forall>k<arg_best better bi bv i xs. better ((pre @ xs) ! arg_best better bi bv i xs) ((pre @ xs) ! k))"
  using vals bi best first i
proof (induction xs arbitrary: pre bi bv i)
  case Nil
  then show ?case by simp
next
  case (Cons x xs)
  have xS: "x \<in> S" and bvS: "bv \<in> S" and preS: "\<And>k. k < length pre \<Longrightarrow> pre ! k \<in> S"
    using Cons.prems(1,2,3) by (auto simp: subset_iff)
  have app: "(pre @ [x]) @ xs = pre @ x # xs"
    by simp
  show ?case
  proof (cases "better x bv")
    case True
    have beats: "better x (pre ! k)" if "k < length pre" for k
      using trans [OF xS bvS preS [OF that] True] Cons.prems(4) that by blast
    have "arg_best better (length pre) x (Suc (length pre)) xs < length ((pre @ [x]) @ xs) \<and>
         (\<forall>k<length ((pre @ [x]) @ xs). \<not> better (((pre @ [x]) @ xs) ! k)
              (((pre @ [x]) @ xs) ! arg_best better (length pre) x (Suc (length pre)) xs)) \<and>
         (\<forall>k<arg_best better (length pre) x (Suc (length pre)) xs.
              better (((pre @ [x]) @ xs) ! arg_best better (length pre) x (Suc (length pre)) xs)
                (((pre @ [x]) @ xs) ! k))"
    proof (rule Cons.IH)
      show "set ((pre @ [x]) @ xs) \<subseteq> S"
        using Cons.prems(1) by simp
      show "length pre < length (pre @ [x])"
        by simp
      show "(pre @ [x]) ! length pre = x"
        by simp
      show "\<forall>k<length (pre @ [x]). \<not> better ((pre @ [x]) ! k) x"
        using beats asym by (auto simp: nth_append less_Suc_eq)
      show "\<forall>k<length pre. better x ((pre @ [x]) ! k)"
        using beats by (simp add: nth_append)
      show "Suc (length pre) = length (pre @ [x])"
        by simp
    qed
    then show ?thesis
      unfolding app using True Cons.prems(6) by simp
  next
    case False
    have "arg_best better bi bv (Suc i) xs < length ((pre @ [x]) @ xs) \<and>
         (\<forall>k<length ((pre @ [x]) @ xs). \<not> better (((pre @ [x]) @ xs) ! k)
              (((pre @ [x]) @ xs) ! arg_best better bi bv (Suc i) xs)) \<and>
         (\<forall>k<arg_best better bi bv (Suc i) xs.
              better (((pre @ [x]) @ xs) ! arg_best better bi bv (Suc i) xs) (((pre @ [x]) @ xs) ! k))"
    proof (rule Cons.IH)
      show "set ((pre @ [x]) @ xs) \<subseteq> S"
        using Cons.prems(1) by simp
      show "bi < length (pre @ [x])"
        using Cons.prems(2) by simp
      show "(pre @ [x]) ! bi = bv"
        using Cons.prems(2,3) by (simp add: nth_append)
      show "\<forall>k<length (pre @ [x]). \<not> better ((pre @ [x]) ! k) bv"
        using Cons.prems(4) False by (auto simp: nth_append less_Suc_eq)
      show "\<forall>k<bi. better bv ((pre @ [x]) ! k)"
        using Cons.prems(2,5) by (simp add: nth_append)
      show "Suc i = length (pre @ [x])"
        using Cons.prems(6) by simp
    qed
    then show ?thesis
      unfolding app using False by simp
  qed
qed

lemma argmax_first:
  assumes "xs \<noteq> []" and "list_all (\<lambda>x. \<not> isna x) xs"
  shows "argmax xs < length xs \<and> (\<forall>k<length xs. \<not> f_lt (xs ! argmax xs) (xs ! k)) \<and>
         (\<forall>k<argmax xs. f_lt (xs ! k) (xs ! argmax xs))"
proof -
  obtain v vs where xs: "xs = [v] @ vs"
    using assms(1) by (cases xs) simp_all
  have "arg_best (\<lambda>x bv. f_lt bv x) 0 v 1 vs < length ([v] @ vs) \<and>
         (\<forall>k<length ([v] @ vs). \<not> (\<lambda>x bv. f_lt bv x) (([v] @ vs) ! k) (([v] @ vs) ! arg_best (\<lambda>x bv. f_lt bv x) 0 v 1 vs)) \<and>
         (\<forall>k<arg_best (\<lambda>x bv. f_lt bv x) 0 v 1 vs.
            (\<lambda>x bv. f_lt bv x) (([v] @ vs) ! arg_best (\<lambda>x bv. f_lt bv x) 0 v 1 vs) (([v] @ vs) ! k))"
  proof (rule arg_best_first [where S = "{x. \<not> isna x}"])
    show "f_lt y x \<Longrightarrow> \<not> f_lt y z \<Longrightarrow> f_lt z x"
      if "x \<in> {x. \<not> isna x}" "y \<in> {x. \<not> isna x}" "z \<in> {x. \<not> isna x}" for x y z
      using that f_lt_trans_le [of x y z] by simp
    show "f_lt y x \<Longrightarrow> \<not> f_lt x y" for x y
      by (rule f_lt_asym)
    show "set ([v] @ vs) \<subseteq> {x. \<not> isna x}"
      using assms(2) by (auto simp: xs list_all_iff)
  qed simp_all
  then show ?thesis
    by (simp add: argmax_def xs)
qed

lemma argmin_first:
  assumes "xs \<noteq> []" and "list_all (\<lambda>x. \<not> isna x) xs"
  shows "argmin xs < length xs \<and> (\<forall>k<length xs. \<not> f_lt (xs ! k) (xs ! argmin xs)) \<and>
         (\<forall>k<argmin xs. f_lt (xs ! argmin xs) (xs ! k))"
proof -
  obtain v vs where xs: "xs = [v] @ vs"
    using assms(1) by (cases xs) simp_all
  have "arg_best (\<lambda>x bv. f_lt x bv) 0 v 1 vs < length ([v] @ vs) \<and>
         (\<forall>k<length ([v] @ vs). \<not> (\<lambda>x bv. f_lt x bv) (([v] @ vs) ! k) (([v] @ vs) ! arg_best (\<lambda>x bv. f_lt x bv) 0 v 1 vs)) \<and>
         (\<forall>k<arg_best (\<lambda>x bv. f_lt x bv) 0 v 1 vs.
            (\<lambda>x bv. f_lt x bv) (([v] @ vs) ! arg_best (\<lambda>x bv. f_lt x bv) 0 v 1 vs) (([v] @ vs) ! k))"
  proof (rule arg_best_first [where S = "{x. \<not> isna x}"])
    show "f_lt x y \<Longrightarrow> \<not> f_lt z y \<Longrightarrow> f_lt x z"
      if "x \<in> {x. \<not> isna x}" "y \<in> {x. \<not> isna x}" "z \<in> {x. \<not> isna x}" for x y z
      using that f_lt_le_trans [of x y z] by simp
    show "f_lt x y \<Longrightarrow> \<not> f_lt y x" for x y
      by (rule f_lt_asym)
    show "set ([v] @ vs) \<subseteq> {x. \<not> isna x}"
      using assms(2) by (auto simp: xs list_all_iff)
  qed simp_all
  then show ?thesis
    by (simp add: argmin_def xs)
qed

lemma fill_no_nan: "list_all (\<lambda>x. \<not> isna x) xs \<Longrightarrow> map (\<lambda>x. if isna x then v else x) xs = xs"
  by (induction xs) simp_all

lemma idxmax_no_nan:
  "xs \<noteq> [] \<Longrightarrow> list_all (\<lambda>x. \<not> isna x) xs \<Longrightarrow> idxmax xs = Some (argmax xs)"
  by (cases xs) (simp_all add: idxmax_def fill_no_nan)

lemma idxmin_no_nan:
  "xs \<noteq> [] \<Longrightarrow> list_all (\<lambda>x. \<not> isna x) xs \<Longrightarrow> idxmin xs = Some (argmin xs)"
  by (cases xs) (simp_all add: idxmin_def fill_no_nan)

subsection \<open>The highest and the lowest bucket\<close>

lemma chart_data_source_times:
  assumes "chart_data df = Inr cd"
  shows "sorted_wrt (<) (map (\<lambda>r. the (fst (snd r))) (filter (\<lambda>r. fst r = s) cd))"
proof -
  obtain B where B: "\<forall>s\<in>set (map fst df). resample_sum (map snd (filter (\<lambda>r. fst r = s) df)) = Inr (B s)"
    and cd: "cd = concat (map (\<lambda>s. map (\<lambda>bv. (s, Some (fst bv), snd bv)) (B s)) (group_keys (map fst df)))"
    using chart_data_blocks [OF assms(1)] by blast
  show ?thesis
  proof (cases "s \<in> set (map fst df)")
    case True
    then have f: "filter (\<lambda>r. fst r = s) cd = map (\<lambda>bv. (s, Some (fst bv), snd bv)) (B s)"
      unfolding cd filter_blocks [OF distinct_group_keys] by simp
    have "resample_sum (map snd (filter (\<lambda>r. fst r = s) df)) = Inr (B s)"
      using B True by blast
    from resample_sum_labels [OF this] have "sorted_wrt (<) (map fst (B s))"
      by (simp only: bin_labels_increasing)
    then show ?thesis
      unfolding f by (simp add: o_def)
  next
    case False
    then have "filter (\<lambda>r. fst r = s) cd = []"
      unfolding cd filter_blocks [OF distinct_group_keys] by simp
    then show ?thesis by simp
  qed
qed

text \<open>
  C6. For a source that has buckets (finite \<open>KWh\<close>), \<open>max_row\<close> is a bucket of the source
  that no bucket of the source exceeds, \<open>min_row\<close> one that none falls below, and of the
  buckets of the source with the same sum as \<open>max_row\<close> (as \<open>min_row\<close>) it is the earliest.
\<close>

theorem extrema_are_first_greatest_and_least:
  assumes "chart_data df = Inr cd" and "list_all (\<lambda>r. is_finite (snd (snd r))) df"
    and "src \<in> set (map fst cd)"
  shows "\<exists>hi lo. high_low cd src = Inr (hi, lo) \<and> hi \<in> set cd \<and> lo \<in> set cd \<and>
           fst hi = src \<and> fst lo = src \<and>
           (\<forall>r\<in>set cd. fst r = src \<longrightarrow>
              \<not> f_lt (snd (snd hi)) (snd (snd r)) \<and> \<not> f_lt (snd (snd r)) (snd (snd lo))) \<and>
           (\<forall>r\<in>set cd. fst r = src \<and> snd (snd r) = snd (snd hi) \<longrightarrow>
              the (fst (snd hi)) \<le> the (fst (snd r))) \<and>
           (\<forall>r\<in>set cd. fst r = src \<and> snd (snd r) = snd (snd lo) \<longrightarrow>
              the (fst (snd lo)) \<le> the (fst (snd r)))"
proof -
  define sd where "sd = filter (\<lambda>r. fst r = src) cd"
  define kwh where "kwh = map (\<lambda>r. snd (snd r)) sd"
  define i where "i = argmax kwh"
  define j where "j = argmin kwh"
  have ne: "sd \<noteq> []"
    using assms(3) by (auto simp: sd_def filter_empty_conv)
  have "list_all (\<lambda>r. is_finite (snd (snd r))) cd"
    using assms(1,2) by (rule chart_data_finite)
  then have nonan: "list_all (\<lambda>x. \<not> isna x) kwh"
    by (auto simp: kwh_def sd_def list_all_iff is_finite_not_isna)
  have kne: "kwh \<noteq> []"
    using ne by (simp add: kwh_def)
  have len: "length kwh = length sd"
    by (simp add: kwh_def)
  have nth: "kwh ! k = snd (snd (sd ! k))" if "k < length sd" for k
    using that by (simp add: kwh_def)
  note mx = argmax_first [OF kne nonan, folded i_def, unfolded len]
  note mn = argmin_first [OF kne nonan, folded j_def, unfolded len]
  have i: "i < length sd" and j: "j < length sd"
    using mx mn by simp_all
  have hl: "high_low cd src = Inr (sd ! i, sd ! j)"
    unfolding high_low_def Let_def sd_def [symmetric] kwh_def [symmetric]
    by (simp add: idxmax_no_nan [OF kne nonan] idxmin_no_nan [OF kne nonan] i_def j_def)
  have mem: "sd ! k \<in> set cd \<and> fst (sd ! k) = src" if "k < length sd" for k
  proof -
    have "sd ! k \<in> set sd" using that by (rule nth_mem)
    then show ?thesis by (simp add: sd_def)
  qed
  have pos: "\<exists>k<length sd. sd ! k = r" if "r \<in> set cd" "fst r = src" for r
  proof -
    have "r \<in> set sd" using that by (simp add: sd_def)
    then show ?thesis by (simp only: in_set_conv_nth)
  qed
  have times: "the (fst (snd (sd ! a))) \<le> the (fst (snd (sd ! b)))" if "a \<le> b" "b < length sd" for a b
  proof (cases "a = b")
    case True
    then show ?thesis by simp
  next
    case False
    have "sorted_wrt (<) (map (\<lambda>r. the (fst (snd r))) sd)"
      unfolding sd_def using assms(1) by (rule chart_data_source_times)
    moreover have "a < b" "b < length (map (\<lambda>r. the (fst (snd r))) sd)"
      using that False by simp_all
    ultimately have "map (\<lambda>r. the (fst (snd r))) sd ! a < map (\<lambda>r. the (fst (snd r))) sd ! b"
      by (rule sorted_wrt_nth_less)
    then show ?thesis
      using that by simp
  qed
  have best: "\<not> f_lt (snd (snd (sd ! i))) (snd (snd r)) \<and> \<not> f_lt (snd (snd r)) (snd (snd (sd ! j)))"
    if r: "r \<in> set cd" "fst r = src" for r
  proof -
    obtain k where k: "k < length sd" "sd ! k = r"
      using pos [OF r] by blast
    have "\<not> f_lt (kwh ! i) (kwh ! k)" "\<not> f_lt (kwh ! k) (kwh ! j)"
      using mx mn k(1) by simp_all
    then show ?thesis
      using k i j by (simp add: nth)
  qed
  have first_hi: "the (fst (snd (sd ! i))) \<le> the (fst (snd r))"
    if r: "r \<in> set cd" "fst r = src" and eq: "snd (snd r) = snd (snd (sd ! i))" for r
  proof -
    obtain k where k: "k < length sd" "sd ! k = r"
      using pos [OF r] by blast
    have "\<not> k < i"
    proof
      assume "k < i"
      then have "f_lt (kwh ! k) (kwh ! i)"
        using mx by simp
      then show False
        using k i eq by (simp add: nth)
    qed
    then have "i \<le> k" by simp
    from times [OF this k(1)] show ?thesis
      by (simp add: k(2))
  qed
  have first_lo: "the (fst (snd (sd ! j))) \<le> the (fst (snd r))"
    if r: "r \<in> set cd" "fst r = src" and eq: "snd (snd r) = snd (snd (sd ! j))" for r
  proof -
    obtain k where k: "k < length sd" "sd ! k = r"
      using pos [OF r] by blast
    have "\<not> k < j"
    proof
      assume "k < j"
      then have "f_lt (kwh ! j) (kwh ! k)"
        using mn by simp
      then show False
        using k j eq by (simp add: nth)
    qed
    then have "j \<le> k" by simp
    from times [OF this k(1)] show ?thesis
      by (simp add: k(2))
  qed
  show ?thesis
    apply (rule exI [of _ "sd ! i"], rule exI [of _ "sd ! j"])
    using hl mem [OF i] mem [OF j] best first_hi first_lo by blast
qed

theorem extrema_are_first_greatest_and_least_witness:
  "chart_data (chart_input (snd (process_source example_to_datetime stable_argsort tie_bucket_file ''Gen1''))) =
     Inr [(''Gen1'', Some 1704067200000000000, Fin 2),
          (''Gen1'', Some 1704067500000000000, Fin 0),
          (''Gen1'', Some 1704067800000000000, Fin 2)] \<and>
   list_all (\<lambda>r. is_finite (snd (snd r)))
     (chart_input (snd (process_source example_to_datetime stable_argsort tie_bucket_file ''Gen1''))) \<and>
   ''Gen1'' \<in> set (map fst [(''Gen1'', Some (1704067200000000000::int), Fin 2),
          (''Gen1'', Some 1704067500000000000, Fin 0),
          (''Gen1'', Some 1704067800000000000, Fin 2)]) \<and>
   high_low [(''Gen1'', Some 1704067200000000000, Fin 2),
          (''Gen1'', Some 1704067500000000000, Fin 0),
          (''Gen1'', Some 1704067800000000000, Fin 2)] ''Gen1'' =
     Inr ((''Gen1'', Some 1704067200000000000, Fin 2), (''Gen1'', Some 1704067500000000000, Fin 0)) \<and>
   (\<exists>hi lo. high_low [(''Gen1'', Some 1704067200000000000, Fin 2),
          (''Gen1'', Some 1704067500000000000, Fin 0),
          (''Gen1'', Some 1704067800000000000, Fin 2)] ''Gen1'' = Inr (hi, lo) \<and>
      fst hi = ''Gen1'' \<and> fst lo = ''Gen1'')"
proof -
  let ?df = "chart_input (snd (process_source example_to_datetime stable_argsort tie_bucket_file ''Gen1''))"
  let ?cd = "[(''Gen1'', Some 1704067200000000000, Fin 2),
          (''Gen1'', Some 1704067500000000000, Fin 0),
          (''Gen1'', Some (1704067800000000000::int), Fin 2)]"
  have h1: "chart_data ?df = Inr ?cd" by code_simp
  have h2: "list_all (\<lambda>r. is_finite (snd (snd r))) ?df" by code_simp
  have h3: "''Gen1'' \<in> set (map fst ?cd)" by simp
  have v: "high_low ?cd ''Gen1'' =
     Inr ((''Gen1'', Some 1704067200000000000, Fin 2), (''Gen1'', Some 1704067500000000000, Fin 0))"
    by code_simp
  have c: "\<exists>hi lo. high_low ?cd ''Gen1'' = Inr (hi, lo) \<and> fst hi = ''Gen1'' \<and> fst lo = ''Gen1''"
    using extrema_are_first_greatest_and_least [OF h1 h2 h3] by blast
  show ?thesis
    using h1 h2 h3 v c by (intro conjI)
qed

subsection \<open>Rows without a timestamp\<close>









end
